theory Spec2Isabelle
  imports Main "HOL-Library.Word"
begin

section \<open>komorebidb/structs.py: data model\<close>

text \<open>
  Python \<open>bytes\<close> are lists of 8-bit words, Python \<open>str\<close> is \<open>string\<close> (code points
  below 256), Python \<open>int\<close> is \<open>int\<close>. \<open>T_ENCODABLE = Union[str, bytes]\<close> is a tagged
  union.
\<close>

type_synonym byte = "8 word"
type_synonym bytes = "byte list"

datatype T_ENCODABLE = Str string | Bytes bytes

text \<open>\<open>str.encode()\<close>: UTF-8, one byte below 128 and two bytes from 128 to 255.\<close>

definition utf8_char :: "char \<Rightarrow> bytes" where
  "utf8_char c =
     (let n = (of_char c :: nat) in
      if n < 128 then [of_nat n] else [of_nat (192 + n div 64), of_nat (128 + n mod 64)])"

definition str_encode :: "string \<Rightarrow> bytes" where
  "str_encode s = concat (map utf8_char s)"

text \<open>
  Modelled from the spec: \<open>accumulo.core.structs.encode\<close> and \<open>accumulo.Mutation\<close> are not
  among the sources. The spec gives the mutation primitive as
  \<open>(row, family, qualifier, visibility, timestamp, value)\<close> or
  \<open>(row, family, qualifier, visibility, timestamp, delete=true)\<close>, with text or byte-string
  inputs normalised consistently: a \<open>str\<close> is encoded as \<open>str.encode()\<close> does, \<open>bytes\<close> are
  kept. A mutation stores what its constructor was given; \<open>value\<close> is \<open>None\<close> where the
  call passes no value.
\<close>

fun encode :: "T_ENCODABLE \<Rightarrow> bytes" where
  "encode (Str s) = str_encode s"
| "encode (Bytes b) = b"

record Mutation =
  row :: T_ENCODABLE
  cf :: T_ENCODABLE
  cq :: T_ENCODABLE
  visibility :: T_ENCODABLE
  timestamp :: int
  "value" :: "T_ENCODABLE option"
  delete :: bool

definition Mutation_write ::
  "T_ENCODABLE \<Rightarrow> T_ENCODABLE \<Rightarrow> T_ENCODABLE \<Rightarrow> T_ENCODABLE \<Rightarrow> int \<Rightarrow> T_ENCODABLE \<Rightarrow> Mutation" where
  "Mutation_write r f q v ts val =
     \<lparr>Mutation.row = r, Mutation.cf = f, Mutation.cq = q, Mutation.visibility = v,
      Mutation.timestamp = ts, Mutation.value = Some val, Mutation.delete = False\<rparr>"

definition Mutation_delete ::
  "T_ENCODABLE \<Rightarrow> T_ENCODABLE \<Rightarrow> T_ENCODABLE \<Rightarrow> T_ENCODABLE \<Rightarrow> int \<Rightarrow> Mutation" where
  "Mutation_delete r f q v ts =
     \<lparr>Mutation.row = r, Mutation.cf = f, Mutation.cq = q, Mutation.visibility = v,
      Mutation.timestamp = ts, Mutation.value = None, Mutation.delete = True\<rparr>"

definition row_bytes :: "Mutation \<Rightarrow> bytes" where
  "row_bytes m = encode (Mutation.row m)"

definition cf_bytes :: "Mutation \<Rightarrow> bytes" where
  "cf_bytes m = encode (Mutation.cf m)"

definition cq_bytes :: "Mutation \<Rightarrow> bytes" where
  "cq_bytes m = encode (Mutation.cq m)"

definition visibility_bytes :: "Mutation \<Rightarrow> bytes" where
  "visibility_bytes m = encode (Mutation.visibility m)"

definition METADATA_COMPONENT_PREFIX :: string where
  "METADATA_COMPONENT_PREFIX = ''_meta'' @ [CHR 0x00]"

definition METADATA_COMPONENT_PREFIX_BYTES :: bytes where
  "METADATA_COMPONENT_PREFIX_BYTES = str_encode METADATA_COMPONENT_PREFIX"

section \<open>The key-set manifest codec\<close>

text \<open>
  \<open>komorebi_pb2.Key(row=, cf=, cq=, visibility=)\<close>: four byte fields.
  \<open>komorebi_pb2.KeySet(keys=)\<close>: a message whose one field \<open>keys\<close> holds the descriptors.
\<close>

record Key =
  row :: bytes
  cf :: bytes
  cq :: bytes
  visibility :: bytes

record KeySet =
  keys :: "Key list"

text \<open>
  What a call can raise: the decoder's failure on an ill-formed blob (the spec's
  \<open>MalformedManifest\<close>) and Python's \<open>TypeError\<close>.
\<close>

datatype error = MalformedManifest | TypeError

text \<open>
  Modelled from the spec: \<open>komorebi_pb2\<close> (the generated \<open>KeySet.SerializeToString\<close> and
  \<open>KeySet.ParseFromString\<close>) is not among the sources. The spec fixes the codec's contract only:
  descriptors in order, four byte fields of arbitrary length each, and a decoder that may
  fail on bytes no encoder wrote but neither truncates nor corrupts. The layout below meets
  it: a field is its length as a base-128 little-endian number followed by its bytes, a
  descriptor is its four fields, a key set is its descriptors one after the other. The
  decoder refuses a length with a redundant zero group, a field longer than the input left,
  and a descriptor cut short.
\<close>

fun encode_varint :: "nat \<Rightarrow> bytes" where
  "encode_varint n =
     (if n < 128 then [of_nat n] else of_nat (128 + n mod 128) # encode_varint (n div 128))"

declare encode_varint.simps [simp del]

fun decode_varint :: "bytes \<Rightarrow> (nat \<times> bytes) option" where
  "decode_varint [] = None"
| "decode_varint (b # bs) =
     (if b < 128 then Some (unat b, bs)
      else (case decode_varint bs of
              None \<Rightarrow> None
            | Some (n, rest) \<Rightarrow> if n = 0 then None else Some (unat b - 128 + 128 * n, rest)))"

definition encode_field :: "bytes \<Rightarrow> bytes" where
  "encode_field b = encode_varint (length b) @ b"

definition decode_field :: "bytes \<Rightarrow> (bytes \<times> bytes) option" where
  "decode_field bs =
     (case decode_varint bs of
        None \<Rightarrow> None
      | Some (n, rest) \<Rightarrow> if n \<le> length rest then Some (take n rest, drop n rest) else None)"

definition encode_Key :: "Key \<Rightarrow> bytes" where
  "encode_Key k =
     encode_field (Key.row k) @ encode_field (Key.cf k) @ encode_field (Key.cq k)
       @ encode_field (Key.visibility k)"

definition decode_Key :: "bytes \<Rightarrow> (Key \<times> bytes) option" where
  "decode_Key bs =
     (case decode_field bs of None \<Rightarrow> None | Some (r, bs1) \<Rightarrow>
      (case decode_field bs1 of None \<Rightarrow> None | Some (f, bs2) \<Rightarrow>
       (case decode_field bs2 of None \<Rightarrow> None | Some (q, bs3) \<Rightarrow>
        (case decode_field bs3 of None \<Rightarrow> None | Some (v, bs4) \<Rightarrow>
           Some (\<lparr>Key.row = r, Key.cf = f, Key.cq = q, Key.visibility = v\<rparr>, bs4)))))"

definition SerializeToString :: "KeySet \<Rightarrow> bytes" where
  "SerializeToString key_set = concat (map encode_Key (KeySet.keys key_set))"

lemma decode_varint_shorter:
  "decode_varint bs = Some (n, rest) \<Longrightarrow> length rest < length bs"
proof (induction bs arbitrary: n)
  case Nil
  then show ?case by simp
next
  case (Cons b bs)
  show ?case
  proof (cases "b < 128")
    case True
    with Cons.prems show ?thesis by simp
  next
    case False
    with Cons.prems obtain m where "decode_varint bs = Some (m, rest)"
      by (auto split: option.splits if_splits)
    from Cons.IH [OF this] show ?thesis by simp
  qed
qed

lemma decode_field_shorter:
  "decode_field bs = Some (x, rest) \<Longrightarrow> length rest < length bs"
  by (auto simp: decode_field_def split: option.splits if_splits
      dest!: decode_varint_shorter)

lemma decode_Key_shorter:
  assumes "decode_Key bs = Some (k, rest)"
  shows "length rest < length bs"
proof -
  from assms obtain r f q v bs1 bs2 bs3 where
    1: "decode_field bs = Some (r, bs1)" and
    2: "decode_field bs1 = Some (f, bs2)" and
    3: "decode_field bs2 = Some (q, bs3)" and
    4: "decode_field bs3 = Some (v, rest)"
    by (auto simp: decode_Key_def split: option.splits)
  from decode_field_shorter [OF 1] decode_field_shorter [OF 2]
    decode_field_shorter [OF 3] decode_field_shorter [OF 4]
  show ?thesis by linarith
qed


function decode_keys :: "bytes \<Rightarrow> error + Key list" where
  "decode_keys bs =
     (if bs = [] then Inr []
      else (case decode_Key bs of
              None \<Rightarrow> Inl MalformedManifest
            | Some (k, rest) \<Rightarrow>
                (case decode_keys rest of
                   Inl e \<Rightarrow> Inl e
                 | Inr ks \<Rightarrow> Inr (k # ks))))"
  by pat_completeness auto
termination
  by (relation "measure length") (auto dest: decode_Key_shorter)

declare decode_keys.simps [simp del]

definition ParseFromString :: "bytes \<Rightarrow> error + KeySet" where
  "ParseFromString bs =
     (case decode_keys bs of Inl e \<Rightarrow> Inl e | Inr ks \<Rightarrow> Inr \<lparr>KeySet.keys = ks\<rparr>)"

text \<open>\<open>deserialize_pb_encoded_key_set\<close>: a fresh \<open>KeySet\<close> parsed from the blob.\<close>

definition deserialize_pb_encoded_key_set :: "bytes \<Rightarrow> error + KeySet" where
  "deserialize_pb_encoded_key_set pb_encoded_key_set = ParseFromString pb_encoded_key_set"

text \<open>
  \<open>for k in key_set\<close> (line 147) iterates the message object itself, not its \<open>keys\<close>
  field. A generated message class has no iteration protocol, so the \<open>for\<close> raises
  \<open>TypeError\<close> before a first item, whatever the message holds.
\<close>

definition KeySet_iter :: "KeySet \<Rightarrow> error + Key list" where
  "KeySet_iter key_set = Inl TypeError"

section \<open>Iterables\<close>

text \<open>
  The collections the constructors store are typed \<open>Iterable\<close> and are stored as given
  (lines 67, 90, 140); every call of \<open>mutations()\<close> iterates them again. An iterable is the
  items its next iteration yields, in order, and whether it is one-shot: a list or a tuple
  yields the same items on every iteration, an iterator or a generator yields them once and
  is empty from then on. The objects of a collection are distinct objects.
\<close>

record 'a Iterable =
  items :: "'a list"
  one_shot :: bool

definition iterate :: "'a Iterable \<Rightarrow> 'a list \<times> 'a Iterable" where
  "iterate it = (items it, if one_shot it then it\<lparr>items := []\<rparr> else it)"

text \<open>A Python list, as \<open>views = []\<close> on line 66.\<close>

definition list_Iterable :: "'a list \<Rightarrow> 'a Iterable" where
  "list_Iterable xs = \<lparr>items = xs, one_shot = False\<rparr>"

section \<open>View and Component\<close>

text \<open>
  \<open>uuid4().hex\<close> draws from the process-wide random generator. The tokens it will hand
  out, in the order of the draws, are an explicit input; a draw returns the first and leaves
  the rest.
\<close>

type_synonym entropy = "nat \<Rightarrow> string"

definition uuid4_hex :: "entropy \<Rightarrow> string \<times> entropy" where
  "uuid4_hex g = (g 0, \<lambda>n. g (Suc n))"

record View =
  lookup_term :: string
  qualifier :: string
  visibility :: string
  family :: T_ENCODABLE
  "value" :: T_ENCODABLE

text \<open>\<open>View.__init__(lookup_term, qualifier, visibility, value, family)\<close>.\<close>

definition View_init ::
  "string \<Rightarrow> string option \<Rightarrow> string \<Rightarrow> T_ENCODABLE \<Rightarrow> T_ENCODABLE \<Rightarrow> entropy
     \<Rightarrow> View \<times> entropy" where
  "View_init lt q vis val fam g =
     (case (case q of None \<Rightarrow> uuid4_hex g | Some q' \<Rightarrow> (q', g)) of
        (q1, g1) \<Rightarrow>
          (\<lparr>View.lookup_term = lt, View.qualifier = q1, View.visibility = vis,
            View.family = fam, View.value = val\<rparr>, g1))"

text \<open>\<open>View.mutation(timestamp_ms)\<close> and the static \<open>View.pb_key_from_mutation\<close>.\<close>

definition View_mutation :: "View \<Rightarrow> int \<Rightarrow> Mutation" where
  "View_mutation self ts =
     Mutation_write (Str (View.lookup_term self)) (View.family self) (Str (View.qualifier self))
       (Str (View.visibility self)) ts (View.value self)"

definition pb_key_from_mutation :: "Mutation \<Rightarrow> Key" where
  "pb_key_from_mutation m =
     \<lparr>Key.row = row_bytes m, Key.cf = cf_bytes m, Key.cq = cq_bytes m,
      Key.visibility = visibility_bytes m\<rparr>"

record Component =
  doc_id :: string
  component_type :: string
  qualifier :: string
  visibility :: string
  content :: T_ENCODABLE
  views :: "View Iterable"

text \<open>\<open>Component.__init__(doc_id, component_type, qualifier, visibility, content, views)\<close>.\<close>

definition Component_init ::
  "string \<Rightarrow> string \<Rightarrow> string option \<Rightarrow> string \<Rightarrow> T_ENCODABLE \<Rightarrow> View Iterable option
     \<Rightarrow> entropy \<Rightarrow> Component \<times> entropy" where
  "Component_init d t q vis c vs g =
     (case (case q of None \<Rightarrow> uuid4_hex g | Some q' \<Rightarrow> (q', g)) of
        (q1, g1) \<Rightarrow>
          (\<lparr>Component.doc_id = d, Component.component_type = t, Component.qualifier = q1,
            Component.visibility = vis, Component.content = c,
            Component.views = (case vs of None \<Rightarrow> list_Iterable [] | Some l \<Rightarrow> l)\<rparr>, g1))"

section \<open>Revisions\<close>

text \<open>
  \<open>RevisionBase.__init__\<close>: the timestamp given, or the clock's reading in milliseconds
  (\<open>datetime_to_timestamp_ms(datetime.now(tz=timezone.utc))\<close>, an input here).
\<close>

record RevisionBase =
  timestamp_ms :: int

definition RevisionBase_init :: "int option \<Rightarrow> int \<Rightarrow> int" where
  "RevisionBase_init ts now_ms = (case ts of None \<Rightarrow> now_ms | Some t \<Rightarrow> t)"

record Revision = RevisionBase +
  components :: "Component Iterable"

definition Revision_init :: "Component Iterable \<Rightarrow> int option \<Rightarrow> int \<Rightarrow> Revision" where
  "Revision_init cs ts now_ms =
     \<lparr>timestamp_ms = RevisionBase_init ts now_ms, components = cs\<rparr>"

record RevisionDelete = RevisionBase +
  pb_encoded_key_sets :: "bytes Iterable"

definition RevisionDelete_init :: "bytes Iterable \<Rightarrow> int option \<Rightarrow> int \<Rightarrow> RevisionDelete" where
  "RevisionDelete_init blobs ts now_ms =
     \<lparr>timestamp_ms = RevisionBase_init ts now_ms, pb_encoded_key_sets = blobs\<rparr>"

subsection \<open>Revision.mutations\<close>

text \<open>
  The locals of one pass of the loop, each under its source name, for the revision's
  timestamp \<open>ts\<close> and the component of the pass. The pass iterates \<open>component.views\<close>
  once (line 100): \<open>view_mutations\<close> is built from the items that iteration yields.
\<close>

definition component_mutation :: "int \<Rightarrow> Component \<Rightarrow> Mutation" where
  "component_mutation ts c =
     Mutation_write (Str (Component.doc_id c)) (Str (Component.component_type c))
       (Str (Component.qualifier c)) (Str (Component.visibility c)) ts (Component.content c)"

definition view_mutations :: "int \<Rightarrow> Component \<Rightarrow> Mutation list" where
  "view_mutations ts c =
     map (\<lambda>view. Mutation_write (Str (View.lookup_term view)) (View.family view)
                   (Str (View.qualifier view)) (Str (View.visibility view)) ts (View.value view))
       (fst (iterate (Component.views c)))"

text \<open>\<open>view_keys\<close> after the \<open>extend\<close>: the view keys, the component key, the metadata key.\<close>

definition view_keys :: "int \<Rightarrow> Component \<Rightarrow> Key list" where
  "view_keys ts c =
     map (\<lambda>m. \<lparr>Key.row = row_bytes m, Key.cf = cf_bytes m, Key.cq = cq_bytes m,
                Key.visibility = visibility_bytes m\<rparr>) (view_mutations ts c)
     @ [\<lparr>Key.row = row_bytes (component_mutation ts c),
         Key.cf = cf_bytes (component_mutation ts c),
         Key.cq = cq_bytes (component_mutation ts c),
         Key.visibility = visibility_bytes (component_mutation ts c)\<rparr>,
        \<lparr>Key.row = row_bytes (component_mutation ts c),
         Key.cf = METADATA_COMPONENT_PREFIX_BYTES @ cf_bytes (component_mutation ts c),
         Key.cq = cq_bytes (component_mutation ts c),
         Key.visibility = visibility_bytes (component_mutation ts c)\<rparr>]"

definition view_key_set :: "int \<Rightarrow> Component \<Rightarrow> KeySet" where
  "view_key_set ts c = \<lparr>KeySet.keys = view_keys ts c\<rparr>"

definition view_key_set_pb_encoded :: "int \<Rightarrow> Component \<Rightarrow> bytes" where
  "view_key_set_pb_encoded ts c = SerializeToString (view_key_set ts c)"

text \<open>The source binds \<open>component_metadata_mutation\<close> to a list of one mutation.\<close>

definition component_metadata_mutation :: "int \<Rightarrow> Component \<Rightarrow> Mutation list" where
  "component_metadata_mutation ts c =
     [Mutation_write (Str (Component.doc_id c))
        (Str (METADATA_COMPONENT_PREFIX @ Component.component_type c))
        (Str (Component.qualifier c)) (Str (Component.visibility c)) ts
        (Bytes (view_key_set_pb_encoded ts c))]"

text \<open>
  An element of the returned Python list is a mutation or, where the source puts a list
  into the list, a list of mutations.
\<close>

datatype element = Elem Mutation | Nested "Mutation list"

text \<open>
  One pass: the list \<open>mutations\<close> extended, and the component as the pass leaves it, its
  \<open>views\<close> iterated once.
\<close>

definition Revision_pass :: "int \<Rightarrow> element list \<Rightarrow> Component \<Rightarrow> element list \<times> Component" where
  "Revision_pass ts mutations c =
     (mutations @ (map Elem (view_mutations ts c)
                   @ [Elem (component_mutation ts c), Nested (component_metadata_mutation ts c)]),
      c\<lparr>Component.views := snd (iterate (Component.views c))\<rparr>)"

text \<open>The loop over the components the iteration of \<open>self.components\<close> yields.\<close>

fun Revision_loop :: "int \<Rightarrow> Component list \<Rightarrow> element list \<Rightarrow> element list \<times> Component list" where
  "Revision_loop ts [] mutations = (mutations, [])"
| "Revision_loop ts (c # cs) mutations =
     (case Revision_pass ts mutations c of
        (mutations1, c1) \<Rightarrow>
          (case Revision_loop ts cs mutations1 of (mutations2, cs1) \<Rightarrow> (mutations2, c1 # cs1)))"

text \<open>
  \<open>Revision.mutations()\<close>: the list returned, and the revision as the call leaves it. A
  sequence of components still holds its components, each as its pass left it; a one-shot
  iterator of components is exhausted.
\<close>

definition Revision_mutations :: "Revision \<Rightarrow> element list \<times> Revision" where
  "Revision_mutations self =
     (case Revision_loop (timestamp_ms self) (fst (iterate (components self))) [] of
        (mutations, cs1) \<Rightarrow>
          (mutations,
           self\<lparr>components :=
             (if one_shot (components self) then snd (iterate (components self))
              else (components self)\<lparr>items := cs1\<rparr>)\<rparr>))"

fun mutations_of :: "element \<Rightarrow> Mutation list" where
  "mutations_of (Elem m) = [m]"
| "mutations_of (Nested ms) = ms"

text \<open>A revision whose collections can all be iterated again.\<close>

definition reiterable :: "Revision \<Rightarrow> bool" where
  "reiterable self \<longleftrightarrow>
     \<not> one_shot (components self)
     \<and> list_all (\<lambda>c. \<not> one_shot (Component.views c)) (items (components self))"

subsection \<open>RevisionDelete.mutations\<close>

text \<open>
  The loop over the blobs the iteration of \<open>pb_encoded_key_sets\<close> yields, with
  \<open>delete_mutations\<close> as the accumulator. A failing \<open>ParseFromString\<close> raises out of the
  loop, and so does the iteration of the parsed message. Only what the call returns or
  raises is modelled, not the state it leaves the iterable in.
\<close>

fun RevisionDelete_loop :: "int \<Rightarrow> bytes list \<Rightarrow> Mutation list \<Rightarrow> error + Mutation list" where
  "RevisionDelete_loop ts [] delete_mutations = Inr delete_mutations"
| "RevisionDelete_loop ts (pb_encoded_key_set # rest) delete_mutations =
     (case deserialize_pb_encoded_key_set pb_encoded_key_set of
        Inl e \<Rightarrow> Inl e
      | Inr key_set \<Rightarrow>
          (case KeySet_iter key_set of
             Inl e \<Rightarrow> Inl e
           | Inr ks \<Rightarrow>
               RevisionDelete_loop ts rest
                 (delete_mutations
                  @ map (\<lambda>k. Mutation_delete (Bytes (Key.row k)) (Bytes (Key.cf k))
                               (Bytes (Key.cq k)) (Bytes (Key.visibility k)) ts) ks)))"

text \<open>
  The method's body ends with the loop: there is no \<open>return\<close>, so a call that does not
  raise returns Python's \<open>None\<close> (here \<open>Inr None\<close>).
\<close>

definition RevisionDelete_mutations :: "RevisionDelete \<Rightarrow> error + Mutation list option" where
  "RevisionDelete_mutations self =
     (case RevisionDelete_loop (timestamp_ms self) (fst (iterate (pb_encoded_key_sets self))) [] of
        Inl e \<Rightarrow> Inl e
      | Inr delete_mutations \<Rightarrow> Inr None)"

subsection \<open>The example of the specification\<close>

text \<open>
  A component \<open>doc_id = "d1"\<close>, \<open>component_type = "text"\<close>, \<open>content = b"hello"\<close> with one
  view \<open>lookup_term = "hello"\<close>, \<open>family = "idx"\<close>; the qualifiers \<open>"c1"\<close> and \<open>"v1"\<close> are
  supplied, the visibilities and the view's value are the defaults, the views are a list.
\<close>

definition example_view :: View where
  "example_view =
     \<lparr>View.lookup_term = ''hello'', View.qualifier = ''v1'', View.visibility = [],
      View.family = Str ''idx'', View.value = Bytes []\<rparr>"

definition example_component :: Component where
  "example_component =
     \<lparr>Component.doc_id = ''d1'', Component.component_type = ''text'',
      Component.qualifier = ''c1'', Component.visibility = [],
      Component.content = Bytes [104, 101, 108, 108, 111],
      Component.views = list_Iterable [example_view]\<rparr>"

section \<open>The codec: decoding what was encoded\<close>

lemma encode_varint_decode:
  "decode_varint (encode_varint n @ rest) = Some (n, rest)"
proof (induction n rule: encode_varint.induct)
  case (1 n)
  show ?case
  proof (cases "n < 128")
    case True
    then have "(of_nat n :: byte) < 128"
      by (simp add: word_less_nat_alt unat_of_nat)
    moreover from True have "unat (of_nat n :: byte) = n"
      by (simp add: unat_of_nat)
    ultimately show ?thesis using True
      by (simp add: encode_varint.simps [of n])
  next
    case False
    let ?b = "of_nat (128 + n mod 128) :: byte"
    have "unat ?b = (128 + n mod 128) mod 2 ^ LENGTH(8)"
      by (rule unat_of_nat)
    also have "\<dots> = 128 + n mod 128"
      by simp
    finally have u: "unat ?b = 128 + n mod 128" .
    then have nb: "\<not> ?b < 128"
      by (simp add: word_less_nat_alt)
    from False have d: "n div 128 \<noteq> 0" by simp
    have "decode_varint (encode_varint n @ rest)
        = decode_varint (?b # (encode_varint (n div 128) @ rest))"
      using False by (simp add: encode_varint.simps [of n])
    also have "\<dots> = Some (unat ?b - 128 + 128 * (n div 128), rest)"
      using nb d "1.IH" [OF False] by simp
    also have "unat ?b - 128 + 128 * (n div 128) = n"
      using u by simp
    finally show ?thesis .
  qed
qed

lemma encode_field_decode:
  "decode_field (encode_field b @ rest) = Some (b, rest)"
  by (simp add: decode_field_def encode_field_def encode_varint_decode)

lemma encode_Key_decode:
  "decode_Key (encode_Key k @ rest) = Some (k, rest)"
  by (simp add: decode_Key_def encode_Key_def encode_field_decode)

lemma encode_varint_nonempty: "encode_varint n \<noteq> []"
  by (simp add: encode_varint.simps [of n])

lemma encode_Key_nonempty: "encode_Key k \<noteq> []"
  by (simp add: encode_Key_def encode_field_def encode_varint_nonempty)

lemma decode_keys_encode:
  "decode_keys (concat (map encode_Key ks)) = Inr ks"
proof (induction ks)
  case Nil
  show ?case by (simp add: decode_keys.simps [of "[]"])
next
  case (Cons k ks)
  have "encode_Key k @ concat (map encode_Key ks) \<noteq> []"
    by (simp add: encode_Key_nonempty)
  then show ?case
    using Cons.IH
    by (simp add: decode_keys.simps [of "encode_Key k @ concat (map encode_Key ks)"]
        encode_Key_decode)
qed

lemma ParseFromString_SerializeToString:
  "ParseFromString (SerializeToString key_set) = Inr key_set"
  by (simp add: ParseFromString_def SerializeToString_def decode_keys_encode)

text \<open>
  C8 (key-set codec round trip). For every sequence \<open>S\<close> of key descriptors, decoding the
  bytes that encoding \<open>S\<close> produced succeeds and yields \<open>S\<close> itself: the same descriptors in
  the same order.
\<close>

theorem codec_round_trip:
  "deserialize_pb_encoded_key_set (SerializeToString \<lparr>KeySet.keys = S\<rparr>)
     = Inr \<lparr>KeySet.keys = S\<rparr>"
  by (simp add: deserialize_pb_encoded_key_set_def ParseFromString_SerializeToString)

subsection \<open>The decoder accepts nothing else\<close>

text \<open>
  The other half of the codec's contract: bytes that decode are the encoding of what they
  decode to, so a decode never truncates or corrupts, and the ill-formed blobs are exactly
  those no key set encodes to.
\<close>

lemma decode_varint_encode:
  "decode_varint bs = Some (n, rest) \<Longrightarrow> bs = encode_varint n @ rest"
proof (induction bs arbitrary: n)
  case Nil
  then show ?case by simp
next
  case (Cons b bs)
  show ?case
  proof (cases "b < 128")
    case True
    with Cons.prems have n: "n = unat b" and r: "rest = bs" by simp_all
    from True have "unat b < 128" by (simp add: word_less_nat_alt)
    then show ?thesis using n r by (simp add: encode_varint.simps [of "unat b"])
  next
    case False
    with Cons.prems obtain k where k: "decode_varint bs = Some (k, rest)" and k0: "k \<noteq> 0"
      and n: "n = unat b - 128 + 128 * k"
      by (auto split: option.splits if_splits)
    from False have ge: "128 \<le> unat b"
      by (simp add: word_less_nat_alt not_less word_le_nat_alt)
    have "unat b < 2 ^ LENGTH(8)" by (rule unsigned_less)
    then have lt: "unat b < 256" by simp
    define r where "r = unat b - 128"
    from ge have rb: "unat b = 128 + r" by (simp add: r_def)
    from lt have rl: "r < 128" by (simp add: r_def)
    from n have n': "n = r + 128 * k" by (simp add: r_def)
    from rl have m: "n mod 128 = r" and d: "n div 128 = k" by (simp_all add: n')
    from k0 have big: "\<not> n < 128" by (simp add: n')
    have "(of_nat (128 + n mod 128) :: byte) = of_nat (unat b)"
      by (simp only: m rb)
    then have "(of_nat (128 + n mod 128) :: byte) = b"
      by simp
    with big d Cons.IH [OF k] show ?thesis
      by (simp add: encode_varint.simps [of n])
  qed
qed

lemma decode_field_encode:
  "decode_field bs = Some (x, rest) \<Longrightarrow> bs = encode_field x @ rest"
  by (auto simp: decode_field_def encode_field_def split: option.splits if_splits
      dest!: decode_varint_encode)

lemma decode_Key_encode:
  "decode_Key bs = Some (k, rest) \<Longrightarrow> bs = encode_Key k @ rest"
  by (auto simp: decode_Key_def encode_Key_def split: option.splits dest!: decode_field_encode)

lemma decode_keys_strict:
  "decode_keys bs = Inr ks \<Longrightarrow> bs = concat (map encode_Key ks)"
proof (induction bs arbitrary: ks rule: decode_keys.induct)
  case (1 bs)
  show ?case
  proof (cases "bs = []")
    case True
    with "1.prems" show ?thesis
      by (simp add: decode_keys.simps [of "[]"])
  next
    case False
    with "1.prems" obtain k rest ks' where k: "decode_Key bs = Some (k, rest)"
      and r: "decode_keys rest = Inr ks'" and ks: "ks = k # ks'"
      by (auto simp: decode_keys.simps [of bs] split: option.splits sum.splits)
    from "1.IH" [OF False k refl r] decode_Key_encode [OF k] ks show ?thesis
      by simp
  qed
qed

lemma ParseFromString_strict:
  "ParseFromString bs = Inr key_set \<Longrightarrow> bs = SerializeToString key_set"
  by (auto simp: ParseFromString_def SerializeToString_def split: sum.splits
      dest: decode_keys_strict)

lemma ill_formed_iff:
  "deserialize_pb_encoded_key_set b = Inl MalformedManifest \<longleftrightarrow> b \<notin> range SerializeToString"
proof
  assume l: "deserialize_pb_encoded_key_set b = Inl MalformedManifest"
  show "b \<notin> range SerializeToString"
  proof
    assume "b \<in> range SerializeToString"
    then obtain ks where "b = SerializeToString ks" ..
    with l show False
      by (simp add: deserialize_pb_encoded_key_set_def ParseFromString_SerializeToString)
  qed
next
  assume n: "b \<notin> range SerializeToString"
  show "deserialize_pb_encoded_key_set b = Inl MalformedManifest"
  proof (cases "decode_keys b")
    case (Inl e)
    have "e = MalformedManifest"
      using Inl
    proof (induction b arbitrary: e rule: decode_keys.induct)
      case (1 bs)
      show ?case
      proof (cases "bs = []")
        case True
        with "1.prems" show ?thesis by (simp add: decode_keys.simps [of "[]"])
      next
        case False
        show ?thesis
        proof (cases "decode_Key bs")
          case None
          with False "1.prems" show ?thesis by (simp add: decode_keys.simps [of bs])
        next
          case (Some p)
          obtain k rest where p: "p = (k, rest)" by (cases p)
          with Some False "1.prems" have "decode_keys rest = Inl e"
            by (simp add: decode_keys.simps [of bs] split: sum.splits)
          from "1.IH" [OF False Some [unfolded p] refl this] show ?thesis .
        qed
      qed
    qed
    with Inl show ?thesis
      by (simp add: deserialize_pb_encoded_key_set_def ParseFromString_def)
  next
    case (Inr ks)
    then have "ParseFromString b = Inr \<lparr>KeySet.keys = ks\<rparr>"
      by (simp add: ParseFromString_def)
    from ParseFromString_strict [OF this] n show ?thesis by simp
  qed
qed

section \<open>Revision.mutations\<close>

lemma Revision_loop_eq:
  "Revision_loop ts cs acc =
     (acc @ concat (map (\<lambda>c. map Elem (view_mutations ts c)
                  @ [Elem (component_mutation ts c), Nested (component_metadata_mutation ts c)]) cs),
      map (\<lambda>c. c\<lparr>Component.views := snd (iterate (Component.views c))\<rparr>) cs)"
  by (induction cs arbitrary: acc) (simp_all add: Revision_pass_def)

lemma Revision_mutations_blocks:
  "fst (Revision_mutations self) =
     concat (map (\<lambda>c. map Elem (view_mutations (timestamp_ms self) c)
                  @ [Elem (component_mutation (timestamp_ms self) c),
                     Nested (component_metadata_mutation (timestamp_ms self) c)])
              (items (components self)))"
  by (simp add: Revision_mutations_def Revision_loop_eq iterate_def)

lemma view_mutations_View_mutation:
  "view_mutations ts c = map (\<lambda>view. View_mutation view ts) (items (Component.views c))"
  by (simp add: view_mutations_def View_mutation_def iterate_def)

lemma str_encode_append: "str_encode (a @ b) = str_encode a @ str_encode b"
  by (simp add: str_encode_def)

lemma view_keys_pb_keys:
  "component_metadata_mutation ts c = [m] \<Longrightarrow>
   view_keys ts c = map pb_key_from_mutation (view_mutations ts c)
     @ [pb_key_from_mutation (component_mutation ts c), pb_key_from_mutation m]"
  by (auto simp: view_keys_def pb_key_from_mutation_def component_metadata_mutation_def
      component_mutation_def Mutation_write_def row_bytes_def cf_bytes_def cq_bytes_def
      visibility_bytes_def METADATA_COMPONENT_PREFIX_BYTES_def str_encode_append)

lemma timestamp_view_mutations:
  "m \<in> set (view_mutations ts c) \<Longrightarrow> Mutation.timestamp m = ts"
  by (auto simp: view_mutations_def Mutation_write_def)

lemma example_view_keys:
  "view_keys 5 example_component =
     [\<lparr>Key.row = [104, 101, 108, 108, 111], Key.cf = [105, 100, 120], Key.cq = [118, 49],
       Key.visibility = []\<rparr>,
      \<lparr>Key.row = [100, 49], Key.cf = [116, 101, 120, 116], Key.cq = [99, 49],
       Key.visibility = []\<rparr>,
      \<lparr>Key.row = [100, 49], Key.cf = [95, 109, 101, 116, 97, 0, 116, 101, 120, 116],
       Key.cq = [99, 49], Key.visibility = []\<rparr>]"
  by (simp add: example_component_def example_view_def view_mutations_def
      component_mutation_def Mutation_write_def view_keys_def row_bytes_def cf_bytes_def
      cq_bytes_def visibility_bytes_def METADATA_COMPONENT_PREFIX_BYTES_def
      METADATA_COMPONENT_PREFIX_def str_encode_def utf8_char_def list_Iterable_def iterate_def)

lemma example_metadata_value:
  "view_key_set_pb_encoded 5 example_component =
     [5, 104, 101, 108, 108, 111, 3, 105, 100, 120, 2, 118, 49, 0,
      2, 100, 49, 4, 116, 101, 120, 116, 2, 99, 49, 0,
      2, 100, 49, 10, 95, 109, 101, 116, 97, 0, 116, 101, 120, 116, 2, 99, 49, 0]"
  by (simp add: view_key_set_pb_encoded_def view_key_set_def example_view_keys
      SerializeToString_def encode_Key_def encode_field_def encode_varint.simps)

text \<open>
  C4 (a flat sequence: views, body, metadata, no nesting) does not hold of the code. On the
  example, at timestamp 5, the method returns three elements: the view mutation, the
  component-body mutation, and a list holding the metadata mutation. The order is the
  claimed one; the third element is a nested list and not a mutation.
\<close>

theorem mutations_nests_metadata:
  "fst (Revision_mutations (Revision_init (list_Iterable [example_component]) (Some 5) 0)) =
     [Elem \<lparr>Mutation.row = Str ''hello'', Mutation.cf = Str ''idx'', Mutation.cq = Str ''v1'',
            Mutation.visibility = Str [], Mutation.timestamp = 5,
            Mutation.value = Some (Bytes []), Mutation.delete = False\<rparr>,
      Elem \<lparr>Mutation.row = Str ''d1'', Mutation.cf = Str ''text'', Mutation.cq = Str ''c1'',
            Mutation.visibility = Str [], Mutation.timestamp = 5,
            Mutation.value = Some (Bytes [104, 101, 108, 108, 111]), Mutation.delete = False\<rparr>,
      Nested
       [\<lparr>Mutation.row = Str ''d1'', Mutation.cf = Str (''_meta'' @ [CHR 0x00] @ ''text''),
          Mutation.cq = Str ''c1'', Mutation.visibility = Str [], Mutation.timestamp = 5,
          Mutation.value = Some (Bytes
            [5, 104, 101, 108, 108, 111, 3, 105, 100, 120, 2, 118, 49, 0,
             2, 100, 49, 4, 116, 101, 120, 116, 2, 99, 49, 0,
             2, 100, 49, 10, 95, 109, 101, 116, 97, 0, 116, 101, 120, 116, 2, 99, 49, 0]),
          Mutation.delete = False\<rparr>]]"
  by (simp add: Revision_mutations_blocks Revision_init_def RevisionBase_init_def
      list_Iterable_def component_metadata_mutation_def example_metadata_value)
     (simp add: example_component_def example_view_def view_mutations_def component_mutation_def
      Mutation_write_def METADATA_COMPONENT_PREFIX_def list_Iterable_def iterate_def)

text \<open>
  C5 (timestamp sharing). Every mutation a revision's \<open>mutations()\<close> returns, the ones that
  are elements of the result and the one inside the nested list, carries the revision's
  \<open>timestamp_ms\<close>; and a revision with at least one component returns at least one mutation.
\<close>

theorem timestamp_sharing:
  "(\<forall>m \<in> set (concat (map mutations_of (fst (Revision_mutations self)))).
      Mutation.timestamp m = timestamp_ms self)
   \<and> (items (components self) \<noteq> []
        \<longrightarrow> concat (map mutations_of (fst (Revision_mutations self))) \<noteq> [])"
proof
  show "\<forall>m \<in> set (concat (map mutations_of (fst (Revision_mutations self)))).
      Mutation.timestamp m = timestamp_ms self"
    by (auto simp: Revision_mutations_blocks component_mutation_def
        component_metadata_mutation_def Mutation_write_def dest: timestamp_view_mutations)
  show "items (components self) \<noteq> []
        \<longrightarrow> concat (map mutations_of (fst (Revision_mutations self))) \<noteq> []"
    by (cases "items (components self)") (auto simp: Revision_mutations_blocks)
qed

theorem timestamp_sharing_witness:
  "items (components (Revision_init (list_Iterable [example_component]) (Some 5) 0)) \<noteq> []
   \<and> component_mutation 5 example_component
        \<in> set (concat (map mutations_of
              (fst (Revision_mutations
                     (Revision_init (list_Iterable [example_component]) (Some 5) 0)))))
   \<and> Mutation.timestamp (component_mutation 5 example_component) = 5"
proof -
  let ?R = "Revision_init (list_Iterable [example_component]) (Some 5) 0"
  have ts: "timestamp_ms ?R = 5"
    by (simp add: Revision_init_def RevisionBase_init_def)
  have c: "items (components ?R) \<noteq> []"
    by (simp add: Revision_init_def list_Iterable_def)
  have m: "component_mutation 5 example_component
        \<in> set (concat (map mutations_of (fst (Revision_mutations ?R))))"
    by (simp add: Revision_mutations_blocks Revision_init_def RevisionBase_init_def
        list_Iterable_def)
  from timestamp_sharing [of ?R] m ts c show ?thesis by auto
qed

text \<open>
  C6 (the metadata mutation). For a component \<open>c\<close> anywhere among a revision's components,
  the metadata mutation the method builds for it (the one member of the nested list in the
  result) has row \<open>doc_id\<close>, family the reserved prefix followed by \<open>component_type\<close>, the
  qualifier of the component-body mutation, which is the component's, the component's
  visibility, the revision's timestamp, and as value the serialized manifest; it is a write,
  not a delete.
\<close>

theorem metadata_mutation_fields:
  "\<exists>m. component_metadata_mutation ts c = [m]
     \<and> Nested [m] \<in> set (fst (Revision_mutations
          \<lparr>timestamp_ms = ts, components = \<lparr>items = cs1 @ c # cs2, one_shot = b\<rparr>\<rparr>))
     \<and> Mutation.row m = Str (Component.doc_id c)
     \<and> Mutation.cf m = Str (METADATA_COMPONENT_PREFIX @ Component.component_type c)
     \<and> Mutation.cq m = Mutation.cq (component_mutation ts c)
     \<and> Mutation.cq m = Str (Component.qualifier c)
     \<and> Mutation.visibility m = Str (Component.visibility c)
     \<and> Mutation.timestamp m = ts
     \<and> Mutation.value m = Some (Bytes (SerializeToString \<lparr>KeySet.keys = view_keys ts c\<rparr>))
     \<and> Mutation.delete m = False"
  by (simp add: component_metadata_mutation_def Revision_mutations_blocks Mutation_write_def
      component_mutation_def view_key_set_pb_encoded_def view_key_set_def)

text \<open>
  C3 (manifest completeness). For a component with \<open>k\<close> views, the value of its metadata
  mutation is the encoding of, and decodes to, exactly \<open>k + 2\<close> key descriptors: the keys of
  the \<open>k\<close> view mutations in view order, then the key of the component-body mutation, then
  the key of the metadata mutation itself.
\<close>

theorem manifest_completeness:
  "\<exists>m blob. component_metadata_mutation ts c = [m]
     \<and> Nested [m] \<in> set (fst (Revision_mutations
          \<lparr>timestamp_ms = ts, components = \<lparr>items = cs1 @ c # cs2, one_shot = b\<rparr>\<rparr>))
     \<and> Mutation.value m = Some (Bytes blob)
     \<and> blob = SerializeToString
          \<lparr>KeySet.keys = map pb_key_from_mutation (view_mutations ts c)
             @ [pb_key_from_mutation (component_mutation ts c), pb_key_from_mutation m]\<rparr>
     \<and> deserialize_pb_encoded_key_set blob =
          Inr \<lparr>KeySet.keys = map pb_key_from_mutation (view_mutations ts c)
               @ [pb_key_from_mutation (component_mutation ts c), pb_key_from_mutation m]\<rparr>
     \<and> view_mutations ts c = map (\<lambda>view. View_mutation view ts) (items (Component.views c))
     \<and> length (map pb_key_from_mutation (view_mutations ts c)
               @ [pb_key_from_mutation (component_mutation ts c), pb_key_from_mutation m])
          = length (items (Component.views c)) + 2"
proof -
  obtain m where m: "component_metadata_mutation ts c = [m]"
    by (simp add: component_metadata_mutation_def)
  let ?keys = "map pb_key_from_mutation (view_mutations ts c)
               @ [pb_key_from_mutation (component_mutation ts c), pb_key_from_mutation m]"
  from m have v: "Mutation.value m = Some (Bytes (SerializeToString \<lparr>KeySet.keys = view_keys ts c\<rparr>))"
    by (auto simp: component_metadata_mutation_def Mutation_write_def view_key_set_pb_encoded_def
        view_key_set_def)
  have n: "Nested [m] \<in> set (fst (Revision_mutations
          \<lparr>timestamp_ms = ts, components = \<lparr>items = cs1 @ c # cs2, one_shot = b\<rparr>\<rparr>))"
    using m by (simp add: Revision_mutations_blocks)
  have k: "view_keys ts c = ?keys"
    by (rule view_keys_pb_keys [OF m])
  have d: "deserialize_pb_encoded_key_set (SerializeToString \<lparr>KeySet.keys = ?keys\<rparr>)
      = Inr \<lparr>KeySet.keys = ?keys\<rparr>"
    by (simp add: deserialize_pb_encoded_key_set_def ParseFromString_SerializeToString)
  have w: "view_mutations ts c = map (\<lambda>view. View_mutation view ts) (items (Component.views c))"
    by (rule view_mutations_View_mutation)
  have l: "length ?keys = length (items (Component.views c)) + 2"
    by (simp add: w)
  from m n v [unfolded k] d w l show ?thesis by blast
qed

text \<open>
  C10 (views omitted). A component constructed with \<open>views\<close> omitted or \<open>None\<close> has the empty
  list of views; a revision of that component alone returns the component-body mutation and
  the list holding the metadata mutation, no view mutation; and the metadata value is the
  encoding of, and decodes to, exactly two key descriptors: the component-body key, then the
  metadata key.
\<close>

theorem component_without_views:
  "Component.views (fst (Component_init d t q vis cont None g)) = \<lparr>items = [], one_shot = False\<rparr>
   \<and> (\<exists>c m blob. c = fst (Component_init d t q vis cont None g)
        \<and> fst (Revision_mutations
                 \<lparr>timestamp_ms = ts, components = \<lparr>items = [c], one_shot = b\<rparr>\<rparr>)
            = [Elem (component_mutation ts c), Nested [m]]
        \<and> Mutation.value m = Some (Bytes blob)
        \<and> blob = SerializeToString
            \<lparr>KeySet.keys = [pb_key_from_mutation (component_mutation ts c),
                             pb_key_from_mutation m]\<rparr>
        \<and> deserialize_pb_encoded_key_set blob =
            Inr \<lparr>KeySet.keys = [pb_key_from_mutation (component_mutation ts c),
                                 pb_key_from_mutation m]\<rparr>)"
proof -
  let ?c = "fst (Component_init d t q vis cont None g)"
  have e: "Component.views ?c = \<lparr>items = [], one_shot = False\<rparr>"
    by (simp add: Component_init_def list_Iterable_def split: option.splits prod.splits)
  obtain m where m: "component_metadata_mutation ts ?c = [m]"
    by (simp add: component_metadata_mutation_def)
  let ?keys = "[pb_key_from_mutation (component_mutation ts ?c), pb_key_from_mutation m]"
  from m have v: "Mutation.value m = Some (Bytes (SerializeToString \<lparr>KeySet.keys = view_keys ts ?c\<rparr>))"
    by (auto simp: component_metadata_mutation_def Mutation_write_def view_key_set_pb_encoded_def
        view_key_set_def)
  have vm: "view_mutations ts ?c = []"
    using e by (simp add: view_mutations_def iterate_def)
  have r: "fst (Revision_mutations
                 \<lparr>timestamp_ms = ts, components = \<lparr>items = [?c], one_shot = b\<rparr>\<rparr>)
            = [Elem (component_mutation ts ?c), Nested [m]]"
    using m vm by (simp add: Revision_mutations_blocks)
  have k: "view_keys ts ?c = ?keys"
    using vm by (simp add: view_keys_pb_keys [OF m])
  have dd: "deserialize_pb_encoded_key_set (SerializeToString \<lparr>KeySet.keys = ?keys\<rparr>)
      = Inr \<lparr>KeySet.keys = ?keys\<rparr>"
    by (simp add: deserialize_pb_encoded_key_set_def ParseFromString_SerializeToString)
  from e r v [unfolded k] dd show ?thesis by blast
qed

subsection \<open>Two calls on the same revision\<close>

lemma Revision_mutations_reiterable:
  assumes "reiterable self"
  shows "snd (Revision_mutations self) = self"
proof -
  from assms have s: "\<not> one_shot (components self)"
    and v: "list_all (\<lambda>c. \<not> one_shot (Component.views c)) (items (components self))"
    by (simp_all add: reiterable_def)
  from v have "map (\<lambda>c. c\<lparr>Component.views := snd (iterate (Component.views c))\<rparr>)
                 (items (components self)) = items (components self)"
    by (induction "items (components self)") (simp_all add: iterate_def list_all_iff map_idI)
  with s show ?thesis
    by (simp add: Revision_mutations_def Revision_loop_eq iterate_def)
qed

lemma example_first_call:
  "fst (Revision_mutations
         (Revision_init \<lparr>items = [example_component], one_shot = True\<rparr> (Some 5) 0))
   = map Elem (view_mutations 5 example_component)
     @ [Elem (component_mutation 5 example_component),
        Nested (component_metadata_mutation 5 example_component)]"
  by (simp add: Revision_mutations_blocks Revision_init_def RevisionBase_init_def)

lemma example_second_call:
  "fst (Revision_mutations (snd (Revision_mutations
         (Revision_init \<lparr>items = [example_component], one_shot = True\<rparr> (Some 5) 0)))) = []"
  by (simp add: Revision_mutations_blocks)
     (simp add: Revision_mutations_def Revision_init_def iterate_def split: prod.splits)

text \<open>
  C9 (determinism), as stated, does not hold of the code. The revision stores the iterable
  it is given and every call iterates it again: over a one-shot iterator of the example
  component (qualifiers supplied), the first call returns the view mutation, the
  component-body mutation and the list holding the metadata mutation, and the second call on
  the same objects returns the empty list.
\<close>

theorem second_call_on_iterator_differs:
  "fst (Revision_mutations
         (Revision_init \<lparr>items = [example_component], one_shot = True\<rparr> (Some 5) 0))
     = map Elem (view_mutations 5 example_component)
       @ [Elem (component_mutation 5 example_component),
          Nested (component_metadata_mutation 5 example_component)]
   \<and> fst (Revision_mutations (snd (Revision_mutations
         (Revision_init \<lparr>items = [example_component], one_shot = True\<rparr> (Some 5) 0)))) = []
   \<and> fst (Revision_mutations (snd (Revision_mutations
         (Revision_init \<lparr>items = [example_component], one_shot = True\<rparr> (Some 5) 0))))
     \<noteq> fst (Revision_mutations
         (Revision_init \<lparr>items = [example_component], one_shot = True\<rparr> (Some 5) 0))"
  by (simp add: example_first_call example_second_call)

text \<open>
  C9, amended. When the revision's components and the views of each of its components are
  collections that can be iterated again (lists, tuples), a call of \<open>mutations()\<close> leaves the
  revision and its components as they were, and two calls on the same objects return equal
  sequences. The method draws no random token: the qualifiers, supplied or generated, are
  fixed when the objects are constructed.
\<close>

theorem repeated_call_on_sequences:
  assumes "reiterable self"
  shows "snd (Revision_mutations self) = self
    \<and> fst (Revision_mutations (snd (Revision_mutations self))) = fst (Revision_mutations self)"
  using Revision_mutations_reiterable [OF assms] by simp

theorem repeated_call_on_sequences_witness:
  "reiterable (Revision_init (list_Iterable [example_component]) (Some 5) 0)
   \<and> fst (Revision_mutations (snd (Revision_mutations
            (Revision_init (list_Iterable [example_component]) (Some 5) 0))))
     = fst (Revision_mutations (Revision_init (list_Iterable [example_component]) (Some 5) 0))
   \<and> fst (Revision_mutations (Revision_init (list_Iterable [example_component]) (Some 5) 0))
     = map Elem (view_mutations 5 example_component)
       @ [Elem (component_mutation 5 example_component),
          Nested (component_metadata_mutation 5 example_component)]"
proof -
  let ?R = "Revision_init (list_Iterable [example_component]) (Some 5) 0"
  have h: "reiterable ?R"
    by (simp add: reiterable_def Revision_init_def list_Iterable_def example_component_def)
  have f: "fst (Revision_mutations ?R)
     = map Elem (view_mutations 5 example_component)
       @ [Elem (component_mutation 5 example_component),
          Nested (component_metadata_mutation 5 example_component)]"
    by (simp add: Revision_mutations_blocks Revision_init_def RevisionBase_init_def
        list_Iterable_def)
  from repeated_call_on_sequences [OF h] h f show ?thesis by simp
qed

section \<open>RevisionDelete.mutations\<close>

lemma RevisionDelete_loop_cases:
  "RevisionDelete_loop ts blobs acc =
     (case blobs of
        [] \<Rightarrow> Inr acc
      | b # rest \<Rightarrow>
          (case deserialize_pb_encoded_key_set b of Inl e \<Rightarrow> Inl e | Inr key_set \<Rightarrow> Inl TypeError))"
  by (cases blobs) (simp_all add: KeySet_iter_def split: sum.splits)

lemma one_descriptor_manifest:
  "deserialize_pb_encoded_key_set [1, 114, 1, 102, 1, 113, 0]
     = Inr \<lparr>KeySet.keys =
              [\<lparr>Key.row = [114], Key.cf = [102], Key.cq = [113], Key.visibility = []\<rparr>]\<rparr>"
  by (simp add: deserialize_pb_encoded_key_set_def ParseFromString_def
      decode_keys.simps [of "[1, 114, 1, 102, 1, 113, 0]"] decode_keys.simps [of "[]"]
      decode_Key_def decode_field_def)

lemma cut_short_manifest:
  "deserialize_pb_encoded_key_set [1, 2] = Inl MalformedManifest"
  by (simp add: deserialize_pb_encoded_key_set_def ParseFromString_def
      decode_keys.simps [of "[1, 2]"] decode_Key_def decode_field_def)

text \<open>
  C7 (an ill-formed manifest makes the call fail with \<open>MalformedManifest\<close>) does not hold
  of the code. With a decodable manifest before the ill-formed blob, the first pass of the
  loop raises \<open>TypeError\<close> on iterating the parsed message, and the ill-formed blob is never
  decoded: the call fails, returning no delete mutation, but not with \<open>MalformedManifest\<close>.
\<close>

theorem ill_formed_after_decodable_raises_TypeError:
  "deserialize_pb_encoded_key_set [1, 114, 1, 102, 1, 113, 0]
     = Inr \<lparr>KeySet.keys =
              [\<lparr>Key.row = [114], Key.cf = [102], Key.cq = [113], Key.visibility = []\<rparr>]\<rparr>
   \<and> deserialize_pb_encoded_key_set [1, 2] = Inl MalformedManifest
   \<and> RevisionDelete_mutations
       (RevisionDelete_init (list_Iterable [[1, 114, 1, 102, 1, 113, 0], [1, 2]]) (Some 9) 0)
       = Inl TypeError"
  using one_descriptor_manifest cut_short_manifest
  by (simp add: RevisionDelete_mutations_def RevisionDelete_init_def list_Iterable_def
      iterate_def RevisionDelete_loop_cases)

text \<open>
  C2 (one delete marker per key descriptor, in order) does not hold of the code. The
  method's body has no \<open>return\<close>: on the empty collection the call returns \<open>None\<close>, not the
  empty sequence. And on a single well-formed manifest of one descriptor, at timestamp 9,
  it raises \<open>TypeError\<close> on iterating the parsed message, before any delete marker is built.
\<close>

theorem delete_mutations_yields_no_sequence:
  "RevisionDelete_mutations (RevisionDelete_init (list_Iterable []) (Some 9) 0) = Inr None
   \<and> deserialize_pb_encoded_key_set [1, 114, 1, 102, 1, 113, 0]
       = Inr \<lparr>KeySet.keys =
                [\<lparr>Key.row = [114], Key.cf = [102], Key.cq = [113], Key.visibility = []\<rparr>]\<rparr>
   \<and> RevisionDelete_mutations
       (RevisionDelete_init (list_Iterable [[1, 114, 1, 102, 1, 113, 0]]) (Some 9) 0)
       = Inl TypeError"
  using one_descriptor_manifest
  by (simp add: RevisionDelete_mutations_def RevisionDelete_init_def list_Iterable_def
      iterate_def RevisionDelete_loop_cases)

text \<open>
  C1 (delete symmetry) does not hold of the code, by the same two slips. The manifest the
  example's revision stored at timestamp 5 decodes to the view key, the component-body key
  and the metadata key; a delete revision at timestamp 9 over that manifest raises
  \<open>TypeError\<close> on iterating the parsed message and produces no delete marker.
\<close>

theorem delete_of_stored_manifest_raises:
  "deserialize_pb_encoded_key_set (view_key_set_pb_encoded 5 example_component) =
     Inr \<lparr>KeySet.keys =
       [\<lparr>Key.row = [104, 101, 108, 108, 111], Key.cf = [105, 100, 120], Key.cq = [118, 49],
         Key.visibility = []\<rparr>,
        \<lparr>Key.row = [100, 49], Key.cf = [116, 101, 120, 116], Key.cq = [99, 49],
         Key.visibility = []\<rparr>,
        \<lparr>Key.row = [100, 49], Key.cf = [95, 109, 101, 116, 97, 0, 116, 101, 120, 116],
         Key.cq = [99, 49], Key.visibility = []\<rparr>]\<rparr>
   \<and> RevisionDelete_mutations
        (RevisionDelete_init (list_Iterable [view_key_set_pb_encoded 5 example_component])
           (Some 9) 0) = Inl TypeError"
proof -
  have d: "deserialize_pb_encoded_key_set (view_key_set_pb_encoded 5 example_component)
      = Inr \<lparr>KeySet.keys = view_keys 5 example_component\<rparr>"
    by (simp add: view_key_set_pb_encoded_def view_key_set_def deserialize_pb_encoded_key_set_def
        ParseFromString_SerializeToString)
  have r: "RevisionDelete_mutations
        (RevisionDelete_init (list_Iterable [view_key_set_pb_encoded 5 example_component])
           (Some 9) 0) = Inl TypeError"
    using d
    by (simp add: RevisionDelete_mutations_def RevisionDelete_init_def list_Iterable_def
        iterate_def RevisionDelete_loop_cases)
  from d r show ?thesis by (simp add: example_view_keys)
qed

section \<open>Further properties of the code\<close>

text \<open>
  The shape of what \<open>Revision.mutations()\<close> returns: for each component in input order,
  its view mutations in view order, then its component-body mutation, then the one-element
  list holding its metadata mutation; nothing else.
\<close>

theorem mutations_block_structure:
  "fst (Revision_mutations
         \<lparr>timestamp_ms = ts, components = \<lparr>items = cs1 @ c # cs2, one_shot = b\<rparr>\<rparr>) =
     fst (Revision_mutations \<lparr>timestamp_ms = ts, components = \<lparr>items = cs1, one_shot = b\<rparr>\<rparr>)
     @ (map Elem (map (\<lambda>view. View_mutation view ts) (items (Component.views c)))
        @ [Elem (component_mutation ts c), Nested (component_metadata_mutation ts c)])
     @ fst (Revision_mutations \<lparr>timestamp_ms = ts, components = \<lparr>items = cs2, one_shot = b\<rparr>\<rparr>)"
  by (simp add: Revision_mutations_blocks view_mutations_View_mutation)

text \<open>
  What \<open>RevisionDelete.mutations()\<close> does on every input: on the empty collection it
  returns \<open>None\<close>; otherwise it fails on the first blob, with the decoder's failure when the
  blob is ill-formed and with \<open>TypeError\<close> when it decodes. It never returns a sequence.
\<close>

theorem delete_mutations_outcome:
  "RevisionDelete_mutations self =
     (case items (pb_encoded_key_sets self) of
        [] \<Rightarrow> Inr None
      | blob # rest \<Rightarrow>
          (case deserialize_pb_encoded_key_set blob of
             Inl e \<Rightarrow> Inl e
           | Inr key_set \<Rightarrow> Inl TypeError))"
  by (simp add: RevisionDelete_mutations_def iterate_def RevisionDelete_loop_cases
      split: list.splits sum.splits)

end
